theory Spec2Isabelle
  imports Complex_Main "HOL-Library.AList" "HOL-Library.Sublist"
begin

section \<open>JavaScript values\<close>

text \<open>
  A parsed locale document is a JSON value.  Numbers are held by their numeric value; the
  loader only ever tests them against zero.  A JavaScript object is an association list
  with distinct keys, listed in the order in which JavaScript enumerates its own keys.
  Property names inherited from \<open>Object.prototype\<close> are not modelled: a lookup of a key
  that was never stored finds nothing.
\<close>

datatype json =
    JNull
  | JBool bool
  | JNum rat
  | JStr string
  | JObj "(string \<times> json) list"
  | JArr "json list"

text \<open>JavaScript truthiness, as tested by \<open>!x\<close>, \<open>x && y\<close> and \<open>Array.filter\<close>.\<close>

fun truthy :: "json \<Rightarrow> bool" where
  "truthy JNull = False"
| "truthy (JBool b) = b"
| "truthy (JNum n) = (n \<noteq> 0)"
| "truthy (JStr s) = (s \<noteq> [])"
| "truthy (JObj kvs) = True"
| "truthy (JArr xs) = True"

text \<open>lodash \<open>isObject\<close>: objects and arrays, not \<open>null\<close>.\<close>

fun isObject :: "json \<Rightarrow> bool" where
  "isObject (JObj kvs) = True"
| "isObject (JArr xs) = True"
| "isObject v = False"

subsection \<open>Decimal keys\<close>

definition is_digit :: "char \<Rightarrow> bool" where
  "is_digit c = (c \<in> set ''0123456789'')"

definition digit_val :: "char \<Rightarrow> int" where
  "digit_val c = of_char c - 48"

text \<open>The regular expression \<open>/^(?:0|[1-9]\d*)$/\<close>.\<close>

definition canonical_uint :: "string \<Rightarrow> bool" where
  "canonical_uint s = (s = ''0'' \<or> (s \<noteq> [] \<and> hd s \<noteq> CHR ''0'' \<and> list_all is_digit s))"

definition uint_val :: "string \<Rightarrow> int" where
  "uint_val s = foldl (\<lambda>a c. 10 * a + digit_val c) 0 s"

text \<open>An array index of the language: a canonical decimal below \<open>2^32 - 1\<close>.\<close>

definition isArrayIndex :: "string \<Rightarrow> bool" where
  "isArrayIndex s = (canonical_uint s \<and> uint_val s < 2 ^ 32 - 1)"

text \<open>lodash \<open>isIndex\<close> on a string: a canonical decimal below \<open>MAX_SAFE_INTEGER\<close>.\<close>

definition isIndex :: "string \<Rightarrow> bool" where
  "isIndex s = (canonical_uint s \<and> uint_val s < 2 ^ 53 - 1)"

fun digit_char :: "nat \<Rightarrow> char" where
  "digit_char n = char_of (48 + n)"

fun show_nat :: "nat \<Rightarrow> string" where
  "show_nat n = (if n < 10 then [digit_char n] else show_nat (n div 10) @ [digit_char (n mod 10)])"

declare show_nat.simps [simp del]

subsection \<open>Objects as ordered dictionaries\<close>

text \<open>
  \<open>obj[k] = v\<close> on an ordinary object.  An existing key keeps its place.  A new key goes
  to the end, unless it is an array index: those are enumerated first, in ascending order.
\<close>

fun obj_put_index :: "int \<Rightarrow> string \<Rightarrow> 'v \<Rightarrow> (string \<times> 'v) list \<Rightarrow> (string \<times> 'v) list" where
  "obj_put_index i k v [] = [(k, v)]"
| "obj_put_index i k v (p # ps) =
     (if isArrayIndex (fst p) \<and> uint_val (fst p) < i then p # obj_put_index i k v ps
      else (k, v) # p # ps)"

definition obj_set :: "string \<Rightarrow> 'v \<Rightarrow> (string \<times> 'v) list \<Rightarrow> (string \<times> 'v) list" where
  "obj_set k v al =
     (if map_of al k \<noteq> None then AList.update k v al
      else if isArrayIndex k then obj_put_index (uint_val k) k v al
      else al @ [(k, v)])"

text \<open>\<open>Object.entries\<close> of an object or an array (index keys \<open>0, 1, ...\<close>).\<close>

fun entries :: "json \<Rightarrow> (string \<times> json) list" where
  "entries (JObj kvs) = kvs"
| "entries (JArr xs) = zip (map show_nat [0..<length xs]) xs"
| "entries (JStr s) = zip (map show_nat [0..<length s]) (map (\<lambda>c. JStr [c]) s)"
| "entries v = []"


subsection \<open>Key paths\<close>

text \<open>\<open>s.split('.')\<close>: never empty; \<open>''.split('.')\<close> is \<open>['']\<close>.\<close>

fun split_dot :: "string \<Rightarrow> string list" where
  "split_dot [] = [[]]"
| "split_dot (c # cs) =
     (if c = CHR ''.'' then [] # split_dot cs
      else (case split_dot cs of [] \<Rightarrow> [[c]] | w # ws \<Rightarrow> (c # w) # ws))"

text \<open>\<open>xs.join('.')\<close>.\<close>

fun join_dot :: "string list \<Rightarrow> string" where
  "join_dot [] = []"
| "join_dot [k] = k"
| "join_dot (k # k' # ks) = k @ CHR ''.'' # join_dot (k' # ks)"

text \<open>
  Modelled from the spec: \<open>getKeyname\<close> of \<open>utils\<close> is not among the sources.  The key name
  of a record or node is the last segment of its dot-joined key path.
\<close>

definition getKeyname :: "string \<Rightarrow> string" where
  "getKeyname keypath = last (split_dot keypath)"

section \<open>The data model\<close>

record LocaleRecord =
  r_keypath :: string
  r_keyname :: string
  r_value :: json
  r_locale :: string
  r_filepath :: "string option"
  r_shadow :: bool

record LocaleNode =
  n_keypath :: string
  n_keyname :: string
  n_locales :: "(string \<times> LocaleRecord) list"

text \<open>
  Modelled from the spec: the class \<open>LocaleNode\<close> of \<open>types\<close> is not among the sources.
  A fresh entry node carries its key path, the key name derived from it and no record;
  \<open>getValue\<close> is the value of the record stored for a locale, if there is one.
\<close>

definition new_LocaleNode :: "string \<Rightarrow> LocaleNode" where
  "new_LocaleNode keypath =
     \<lparr>n_keypath = keypath, n_keyname = getKeyname keypath, n_locales = []\<rparr>"



datatype 'n LocaleTreeOf =
  LocaleTree (t_keypath: string) (t_keyname: string) (t_children: "(string \<times> 'n) list")

datatype TreeNode = TTree "TreeNode LocaleTreeOf" | TNode LocaleNode

type_synonym LocaleTree = "TreeNode LocaleTreeOf"

definition newTree :: "string \<Rightarrow> LocaleTree" where
  "newTree keypath = LocaleTree keypath (getKeyname keypath) []"

record ParsedFile =
  f_filepath :: string
  f_locale :: string
  f_value :: json
  f_nested :: bool
  f_flatten :: "(string \<times> json) list"

record PendingWrite =
  p_locale :: string
  p_value :: string
  p_filepath :: "string option"
  p_keypath :: string

record LocaleLoader =
  files :: "(string \<times> ParsedFile) list"
  flattenLocaleTree :: "(string \<times> LocaleNode) list"
  localeTree :: LocaleTree

datatype ErrorType =
    translating_same_locale
  | translating_empty_source_value
  | translating_unknown_error
  | filepath_not_specified

text \<open>
  What a failing operation throws: an \<open>AllyError\<close> with its type and optional cause, or
  an exception \<open>'e\<close> of the platform (a \<open>SyntaxError\<close> of \<open>JSON.parse\<close>, an I/O error).
\<close>

datatype 'e exn = AllyError ErrorType "'e option" | Thrown 'e

section \<open>Queries\<close>

text \<open>\<open>uniq\<close> of lodash keeps the first occurrence of every element.\<close>

fun uniq :: "'a list \<Rightarrow> 'a list" where
  "uniq [] = []"
| "uniq (x # xs) = x # uniq (filter (\<lambda>y. y \<noteq> x) xs)"

definition locales :: "LocaleLoader \<Rightarrow> string list" where
  "locales st = uniq (map (\<lambda>f. f_locale f) (map snd (files st)))"

definition getNodeByKey :: "LocaleLoader \<Rightarrow> string \<Rightarrow> LocaleNode option" where
  "getNodeByKey st keypath = map_of (flattenLocaleTree st) keypath"

section \<open>Machine translation\<close>

text \<open>
  \<open>MachinTranslate\<close> is the opaque translation function: given the source value, the source
  language and the target locale it yields the translated text or throws.
\<close>

definition MachineTranslateRecord ::
  "(json \<Rightarrow> string \<Rightarrow> string \<Rightarrow> 'e + string) \<Rightarrow> LocaleLoader \<Rightarrow> LocaleRecord \<Rightarrow> string
     \<Rightarrow> 'e exn + PendingWrite option" where
  "MachineTranslateRecord MachinTranslate st record sourceLanguage =
     (if r_locale record = sourceLanguage then Inl (AllyError translating_same_locale None)
      else case getNodeByKey st (r_keypath record) of
        None \<Rightarrow> Inl (AllyError translating_empty_source_value None)
      | Some sourceNode \<Rightarrow>
          (case map_of (n_locales sourceNode) sourceLanguage of
            None \<Rightarrow> Inl (AllyError translating_empty_source_value None)
          | Some sourceRecord \<Rightarrow>
              if \<not> truthy (r_value sourceRecord)
              then Inl (AllyError translating_empty_source_value None)
              else (case MachinTranslate (r_value sourceRecord) sourceLanguage (r_locale record) of
                Inl e \<Rightarrow> Inl (AllyError translating_unknown_error (Some e))
              | Inr result \<Rightarrow>
                  Inr (Some \<lparr>p_locale = r_locale record, p_value = result,
                             p_filepath = r_filepath record, p_keypath = r_keypath record\<rparr>))))"


text \<open>
  \<open>Promise.all\<close>: the list of results when every task succeeds, and otherwise the failure
  of a task that failed.  Among several failing tasks the first of the list is taken.
\<close>

fun Promise_all :: "('x + 'a) list \<Rightarrow> 'x + 'a list" where
  "Promise_all [] = Inr []"
| "Promise_all (Inl e # ts) = Inl e"
| "Promise_all (Inr v # ts) = (case Promise_all ts of Inl e \<Rightarrow> Inl e | Inr vs \<Rightarrow> Inr (v # vs))"

text \<open>\<open>notEmpty\<close> of \<open>utils\<close>: neither \<open>null\<close> nor \<open>undefined\<close>.\<close>

definition notEmpty :: "'a option \<Rightarrow> bool" where
  "notEmpty v = (v \<noteq> None)"

section \<open>Shadow records\<close>

text \<open>
  \<open>Global.sourceLanguage\<close> and \<open>replaceLocalePath\<close> of \<open>utils\<close> (the substitution of the locale
  segment of a path) are parameters.
\<close>

definition getShadowFilePath ::
  "string \<Rightarrow> (string \<Rightarrow> string \<Rightarrow> string) \<Rightarrow> LocaleLoader \<Rightarrow> string \<Rightarrow> string \<Rightarrow> string option" where
  "getShadowFilePath Global_sourceLanguage replaceLocalePath st keypath locale =
     (case getNodeByKey st keypath of
        None \<Rightarrow> None
      | Some node \<Rightarrow>
          (let sourceRecord =
                 (case map_of (n_locales node) Global_sourceLanguage of
                    Some r \<Rightarrow> Some r
                  | None \<Rightarrow> (case map snd (n_locales node) of [] \<Rightarrow> None | r # rs \<Rightarrow> Some r))
           in case sourceRecord of
                None \<Rightarrow> None
              | Some r \<Rightarrow>
                  (case r_filepath r of
                     None \<Rightarrow> None
                   | Some fp \<Rightarrow> if fp \<noteq> [] then Some (replaceLocalePath fp locale) else None)))"

definition getShadowLocales ::
  "string \<Rightarrow> (string \<Rightarrow> string \<Rightarrow> string) \<Rightarrow> LocaleLoader \<Rightarrow> LocaleNode
     \<Rightarrow> (string \<times> LocaleRecord) list" where
  "getShadowLocales Global_sourceLanguage replaceLocalePath st node =
     fold (\<lambda>locale acc.
             case map_of (n_locales node) locale of
               Some r \<Rightarrow> obj_set locale r acc
             | None \<Rightarrow>
                 obj_set locale
                   \<lparr>r_keypath = n_keypath node, r_keyname = n_keyname node, r_value = JStr [],
                    r_locale = locale,
                    r_filepath =
                      getShadowFilePath Global_sourceLanguage replaceLocalePath st
                        (n_keypath node) locale,
                    r_shadow = True\<rparr> acc)
          (locales st) []"


text \<open>The \<open>tasks\<close> of \<open>MachineTranslateNode\<close>: one translation per record of another locale.\<close>

definition MachineTranslateNode_tasks ::
  "(json \<Rightarrow> string \<Rightarrow> string \<Rightarrow> 'e + string) \<Rightarrow> string \<Rightarrow> (string \<Rightarrow> string \<Rightarrow> string)
     \<Rightarrow> LocaleLoader \<Rightarrow> LocaleNode \<Rightarrow> string \<Rightarrow> ('e exn + PendingWrite option) list" where
  "MachineTranslateNode_tasks MachinTranslate Global_sourceLanguage replaceLocalePath st node sourceLanguage =
     map (\<lambda>record. MachineTranslateRecord MachinTranslate st record sourceLanguage)
       (filter (\<lambda>record. r_locale record \<noteq> sourceLanguage)
          (map snd (getShadowLocales Global_sourceLanguage replaceLocalePath st node)))"

definition MachineTranslateNode ::
  "(json \<Rightarrow> string \<Rightarrow> string \<Rightarrow> 'e + string) \<Rightarrow> string \<Rightarrow> (string \<Rightarrow> string \<Rightarrow> string)
     \<Rightarrow> LocaleLoader \<Rightarrow> LocaleNode \<Rightarrow> string \<Rightarrow> 'e exn + PendingWrite list" where
  "MachineTranslateNode MachinTranslate Global_sourceLanguage replaceLocalePath st node sourceLanguage =
     (case Promise_all
             (MachineTranslateNode_tasks MachinTranslate Global_sourceLanguage replaceLocalePath
                st node sourceLanguage) of
        Inl e \<Rightarrow> Inl e
      | Inr pendings \<Rightarrow> Inr (map the (filter notEmpty pendings)))"

text \<open>
  \<open>MachineTranslate\<close> takes an entry node or a single record; an omitted or empty source
  language falls back to \<open>Global.sourceLanguage\<close>.
\<close>

definition MachineTranslate ::
  "(json \<Rightarrow> string \<Rightarrow> string \<Rightarrow> 'e + string) \<Rightarrow> string \<Rightarrow> (string \<Rightarrow> string \<Rightarrow> string)
     \<Rightarrow> LocaleLoader \<Rightarrow> LocaleNode + LocaleRecord \<Rightarrow> string option \<Rightarrow> 'e exn + PendingWrite list" where
  "MachineTranslate MachinTranslate Global_sourceLanguage replaceLocalePath st node sourceLanguage =
     (let src = (case sourceLanguage of
                   None \<Rightarrow> Global_sourceLanguage
                 | Some l \<Rightarrow> if l \<noteq> [] then l else Global_sourceLanguage)
      in case node of
           Inl n \<Rightarrow>
             MachineTranslateNode MachinTranslate Global_sourceLanguage replaceLocalePath st n src
         | Inr record \<Rightarrow>
             (case MachineTranslateRecord MachinTranslate st record src of
                Inl e \<Rightarrow> Inl e
              | Inr pending \<Rightarrow> Inr (map the (filter notEmpty [pending]))))"

section \<open>Coverage\<close>



section \<open>Walking the namespace tree\<close>

lemma join_dot_Cons: "join_dot (k # ks) = k @ (if ks = [] then [] else CHR ''.'' # join_dot ks)"
  by (cases ks) simp_all









section \<open>Writing back\<close>

text \<open>
  lodash \<open>set(object, path, value)\<close>, as observed by the \<open>JSON.stringify\<close> that follows it.
  An array written beyond its end is filled with holes, which are serialised as \<open>null\<close>; a
  named property of an array is not serialised at all.  A path string is read as in
  \<open>castPath\<close>: it is one key when it has no dot or is a key of the object, and is split at
  its dots otherwise (the bracket syntax of lodash paths is not modelled).
\<close>

fun has_key :: "json \<Rightarrow> string \<Rightarrow> bool" where
  "has_key (JObj kvs) k = (map_of kvs k \<noteq> None)"
| "has_key (JArr xs) k = (isArrayIndex k \<and> nat (uint_val k) < length xs)"
| "has_key v k = False"

fun js_get :: "json \<Rightarrow> string \<Rightarrow> json option" where
  "js_get (JObj kvs) k = map_of kvs k"
| "js_get (JArr xs) k =
     (if isArrayIndex k \<and> nat (uint_val k) < length xs then Some (xs ! nat (uint_val k)) else None)"
| "js_get v k = None"

definition arr_set :: "json list \<Rightarrow> string \<Rightarrow> json \<Rightarrow> json list" where
  "arr_set xs k v =
     (if isArrayIndex k then
        (if nat (uint_val k) < length xs then xs[nat (uint_val k) := v]
         else xs @ replicate (nat (uint_val k) - length xs) JNull @ [v])
      else xs)"

fun assignValue :: "json \<Rightarrow> string \<Rightarrow> json \<Rightarrow> json" where
  "assignValue (JObj kvs) k v = JObj (obj_set k v kvs)"
| "assignValue (JArr xs) k v = JArr (arr_set xs k v)"
| "assignValue object k v = object"

definition castPath :: "string \<Rightarrow> json \<Rightarrow> string list" where
  "castPath path object =
     (if CHR ''.'' \<notin> set path \<or> has_key object path then [path] else split_dot path)"

fun baseSet_path :: "json \<Rightarrow> string list \<Rightarrow> json \<Rightarrow> json" where
  "baseSet_path nested [] v = nested"
| "baseSet_path nested [key] v = assignValue nested key v"
| "baseSet_path nested (key # key' # rest) v =
     (let objValue = js_get nested key;
          fresh = (if isIndex key' then JArr [] else JObj []);
          newValue = (case objValue of
                        None \<Rightarrow> fresh
                      | Some ov \<Rightarrow> if isObject ov then ov else fresh)
      in assignValue nested key (baseSet_path newValue (key' # rest) v))"

definition lodash_set :: "json \<Rightarrow> string \<Rightarrow> json \<Rightarrow> json" where
  "lodash_set object path v =
     (if \<not> isObject object then object else baseSet_path object (castPath path object) v)"

definition getFilepathsOfLocale :: "LocaleLoader \<Rightarrow> string \<Rightarrow> string list" where
  "getFilepathsOfLocale st locale =
     map f_filepath (filter (\<lambda>f. f_locale f = locale) (map snd (files st)))"

text \<open>
  The two prompts of the editor are parameters: \<open>showInputBox locale keypath\<close> and
  \<open>showQuickPick paths keypath\<close> give the path the user entered or chose, or nothing.
\<close>

definition requestMissingFilepath ::
  "(string \<Rightarrow> string \<Rightarrow> string option) \<Rightarrow> (string list \<Rightarrow> string \<Rightarrow> string option)
     \<Rightarrow> LocaleLoader \<Rightarrow> string \<Rightarrow> string \<Rightarrow> string option" where
  "requestMissingFilepath showInputBox showQuickPick st locale keypath =
     (let paths = getFilepathsOfLocale st locale
      in if length paths = 1 then Some (hd paths)
         else if length paths = 0 then showInputBox locale keypath
         else showQuickPick paths keypath)"

text \<open>
  The loader together with the files on disk (path to content).  \<open>JSON.parse\<close> and
  \<open>JSON.stringify(_, null, 2)\<close> are parameters.
\<close>

record 'e platform =
  JSON_parse :: "string \<Rightarrow> 'e + json"
  JSON_stringify_2 :: "json \<Rightarrow> string"
  showInputBox :: "string \<Rightarrow> string \<Rightarrow> string option"
  showQuickPick :: "string list \<Rightarrow> string \<Rightarrow> string option"

record World =
  loader :: LocaleLoader
  disk :: "string \<Rightarrow> string option"

definition falsy_path :: "string option \<Rightarrow> bool" where
  "falsy_path fp = (fp = None \<or> fp = Some [])"

text \<open>The file a pending write goes to: its own path, or else the one that is requested.\<close>

definition target_filepath :: "'e platform \<Rightarrow> World \<Rightarrow> PendingWrite \<Rightarrow> string option" where
  "target_filepath pf w pending =
     (if falsy_path (p_filepath pending)
      then requestMissingFilepath (showInputBox pf) (showQuickPick pf) (loader w)
             (p_locale pending) (p_keypath pending)
      else p_filepath pending)"

text \<open>
  The document a write starts from: the parsed content of the file when it exists, and the
  empty object otherwise.  A parse error is thrown to the caller.  The write itself is
  taken to succeed.
\<close>

definition read_original :: "'e platform \<Rightarrow> World \<Rightarrow> string \<Rightarrow> 'e + json" where
  "read_original pf w fp =
     (case disk w fp of
        None \<Rightarrow> Inr (JObj [])
      | Some originalRaw \<Rightarrow> JSON_parse pf originalRaw)"

definition writeToSingleFile :: "'e platform \<Rightarrow> World \<Rightarrow> PendingWrite \<Rightarrow> 'e exn option \<times> World" where
  "writeToSingleFile pf w pending =
     (let filepath = target_filepath pf w pending
      in if falsy_path filepath then (Some (AllyError filepath_not_specified None), w)
         else
           (let fp = the filepath
            in case read_original pf w fp of
                 Inl e \<Rightarrow> (Some (Thrown e), w)
               | Inr original \<Rightarrow>
                   (let written = lodash_set original (p_keypath pending) (JStr (p_value pending));
                        writting = JSON_stringify_2 pf written @ [CHR 0x0A]
                    in (None, w\<lparr>disk := (disk w)(fp \<mapsto> writting)\<rparr>))))"

fun writeToFile_loop :: "'e platform \<Rightarrow> World \<Rightarrow> PendingWrite list \<Rightarrow> 'e exn option \<times> World" where
  "writeToFile_loop pf w [] = (None, w)"
| "writeToFile_loop pf w (pending # pendings) =
     (case writeToSingleFile pf w pending of
        (Some e, w') \<Rightarrow> (Some e, w')
      | (None, w') \<Rightarrow> writeToFile_loop pf w' pendings)"

text \<open>\<open>writeToFile\<close> takes one pending write or a list; empty slots of the list are dropped.\<close>

definition writeToFile ::
  "'e platform \<Rightarrow> World \<Rightarrow> PendingWrite + PendingWrite option list \<Rightarrow> 'e exn option \<times> World" where
  "writeToFile pf w pendings =
     (let ps = (case pendings of Inl p \<Rightarrow> [Some p] | Inr ps \<Rightarrow> ps)
      in writeToFile_loop pf w (map the (filter (\<lambda>i. i \<noteq> None) ps)))"


section \<open>Loading files\<close>

lemma size_entries_zip:
  "length ks = length xs \<Longrightarrow> size_list (\<lambda>p. size (snd p)) (zip ks xs) = size_list size xs"
  by (induction ks xs rule: list_induct2) simp_all

lemma size_entries: "isObject v \<Longrightarrow> size_list (\<lambda>p. size (snd p)) (entries v) < size v"
proof (cases v)
  case (JObj kvs)
  have "size_list (\<lambda>p. size (snd p)) kvs \<le> size_list (size_prod (\<lambda>_. 0) size) kvs"
    by (induction kvs) auto
  with JObj show ?thesis by simp
next
  case (JArr xs)
  then show ?thesis by (simp add: size_entries_zip)
qed simp_all

text \<open>
  Modelled from the spec: the package \<open>flat\<close> is not among the sources.  The flattened form
  maps every dot-joined full key path to the value found there (separator \<open>.\<close>).  As in the
  package, a nested object or array is descended into when it has keys and is kept as a
  value when it has none, a key is joined to the path before it only when that path is not
  empty, and a later value for the same joined key replaces the earlier one.
  \<open>Object.keys(null)\<close> throws, so \<open>flat\<close> of \<open>null\<close> gives nothing.
\<close>

function flat_step :: "(string \<times> json) list \<Rightarrow> string \<Rightarrow> (string \<times> json) list \<Rightarrow> (string \<times> json) list" where
  "flat_step [] prev output = output"
| "flat_step ((key, v) # rest) prev output =
     (let newKey = (if prev \<noteq> [] then prev @ CHR ''.'' # key else key)
      in if isObject v \<and> entries v \<noteq> []
         then flat_step rest prev (flat_step (entries v) newKey output)
         else flat_step rest prev (obj_set newKey v output))"
  by pat_completeness auto
termination
  by (relation "measure (\<lambda>(es, prev, output). size_list (\<lambda>p. size (snd p)) es)")
     (auto dest: size_entries)

definition flat :: "json \<Rightarrow> (string \<times> json) list option" where
  "flat target = (if target = JNull then None else Some (flat_step (entries target) [] []))"

text \<open>
  \<open>getFileInfo\<close> of \<open>utils\<close> (the locale and the nesting mode of a path) is a parameter, which
  may throw.  A file that cannot be read, parsed or flattened is removed from the store.
\<close>

definition unsetFile :: "LocaleLoader \<Rightarrow> string \<Rightarrow> LocaleLoader" where
  "unsetFile st filepath = st\<lparr>files := AList.delete filepath (files st)\<rparr>"

definition loadFile ::
  "(string \<Rightarrow> 'e + string \<times> bool) \<Rightarrow> (string \<Rightarrow> 'e + json) \<Rightarrow> (string \<Rightarrow> string option)
     \<Rightarrow> LocaleLoader \<Rightarrow> string \<Rightarrow> LocaleLoader" where
  "loadFile getFileInfo parse dsk st filepath =
     (case getFileInfo filepath of
        Inl e \<Rightarrow> unsetFile st filepath
      | Inr (locale, nested) \<Rightarrow>
          (case dsk filepath of
             None \<Rightarrow> unsetFile st filepath
           | Some raw \<Rightarrow>
               (case parse raw of
                  Inl e \<Rightarrow> unsetFile st filepath
                | Inr v \<Rightarrow>
                    (case flat v of
                       None \<Rightarrow> unsetFile st filepath
                     | Some fl \<Rightarrow>
                         st\<lparr>files :=
                              obj_set filepath
                                \<lparr>f_filepath = filepath, f_locale = locale, f_value = v,
                                 f_nested = nested, f_flatten = fl\<rparr> (files st)\<rparr>))))"

section \<open>Rebuilding the two indices\<close>

definition flatten_record :: "ParsedFile \<Rightarrow> string \<Rightarrow> json \<Rightarrow> LocaleRecord" where
  "flatten_record file keypath v =
     \<lparr>r_keypath = keypath, r_keyname = getKeyname keypath, r_value = v,
      r_locale = f_locale file, r_filepath = Some (f_filepath file), r_shadow = False\<rparr>"

text \<open>One round of the inner loop of \<open>updateFlattenLocalesTree\<close>, for one flattened key.\<close>

definition flatten_put :: "ParsedFile \<Rightarrow> string \<times> json \<Rightarrow> (string \<times> LocaleNode) list \<Rightarrow> (string \<times> LocaleNode) list" where
  "flatten_put file kv tree =
     (let keypath = fst kv;
          tree' = (if map_of tree keypath = None
                   then obj_set keypath (new_LocaleNode keypath) tree else tree);
          node = the (map_of tree' keypath)
      in obj_set keypath
           (node\<lparr>n_locales :=
                   obj_set (f_locale file) (flatten_record file keypath (snd kv)) (n_locales node)\<rparr>)
           tree')"

definition updateFlattenLocalesTree :: "LocaleLoader \<Rightarrow> (string \<times> LocaleNode) list" where
  "updateFlattenLocalesTree st =
     fold (\<lambda>file tree. fold (flatten_put file) (f_flatten file) tree) (map snd (files st)) []"

definition tree_record :: "ParsedFile \<Rightarrow> string \<Rightarrow> string \<Rightarrow> json \<Rightarrow> LocaleRecord" where
  "tree_record file newKeyPath key v =
     \<lparr>r_keypath = newKeyPath, r_keyname = key, r_value = v,
      r_locale = f_locale file, r_filepath = Some (f_filepath file), r_shadow = False\<rparr>"

text \<open>
  \<open>subTree\<close>, the local function of \<open>updateLocalesTree\<close>: \<open>subTree_loop\<close> is its loop over
  the entries of the object, on the tree it was given or on a new one.
\<close>

function subTree_loop :: "(string \<times> json) list \<Rightarrow> string \<Rightarrow> ParsedFile \<Rightarrow> LocaleTree \<Rightarrow> LocaleTree" where
  "subTree_loop [] keypath file tree = tree"
| "subTree_loop ((key, v) # rest) keypath file tree =
     (let newKeyPath = (if keypath \<noteq> [] then keypath @ CHR ''.'' # key else key);
          children = t_children tree
      in if isObject v then
           (let originalTree = (case map_of children key of
                                  Some (TTree t) \<Rightarrow> t
                                | _ \<Rightarrow> newTree newKeyPath);
                sub = subTree_loop (entries v) newKeyPath file originalTree
            in subTree_loop rest keypath file
                 (LocaleTree (t_keypath tree) (t_keyname tree) (obj_set key (TTree sub) children)))
         else
           (let children' = (if map_of children key = None
                             then obj_set key (TNode (new_LocaleNode newKeyPath)) children
                             else children);
                children'' = (case map_of children' key of
                                Some (TNode node) \<Rightarrow>
                                  obj_set key
                                    (TNode (node\<lparr>n_locales :=
                                       obj_set (f_locale file) (tree_record file newKeyPath key v)
                                         (n_locales node)\<rparr>))
                                    children'
                              | _ \<Rightarrow> children')
            in subTree_loop rest keypath file
                 (LocaleTree (t_keypath tree) (t_keyname tree) children'')))"
  by pat_completeness auto
termination
  by (relation "measure (\<lambda>(es, keypath, file, tree). size_list (\<lambda>p. size (snd p)) es)")
     (auto dest: size_entries)

definition subTree :: "json \<Rightarrow> string \<Rightarrow> ParsedFile \<Rightarrow> LocaleTree option \<Rightarrow> LocaleTree" where
  "subTree object keypath file tree =
     subTree_loop (entries object) keypath file
       (case tree of None \<Rightarrow> newTree keypath | Some t \<Rightarrow> t)"

definition updateLocalesTree :: "LocaleLoader \<Rightarrow> LocaleTree" where
  "updateLocalesTree st =
     fold (\<lambda>file tree. subTree (f_value file) [] file (Some tree)) (map snd (files st)) (newTree [])"

definition update :: "LocaleLoader \<Rightarrow> LocaleLoader" where
  "update st =
     st\<lparr>localeTree := updateLocalesTree st, flattenLocaleTree := updateFlattenLocalesTree st\<rparr>"


section \<open>Notions used in the statements\<close>





text \<open>A segment of a key path: a key that is not empty and has no dot.\<close>

definition seg_ok :: "string \<Rightarrow> bool" where
  "seg_ok k = (k \<noteq> [] \<and> CHR ''.'' \<notin> set k)"






text \<open>The pending writes that \<open>writeToFile\<close> goes through, in order.\<close>

definition pending_list :: "PendingWrite + PendingWrite option list \<Rightarrow> PendingWrite list" where
  "pending_list pendings =
     map the (filter (\<lambda>i. i \<noteq> None) (case pendings of Inl p \<Rightarrow> [Some p] | Inr ps \<Rightarrow> ps))"



text \<open>
  Documents as the loader expects them: nested mappings without arrays whose keys, at
  every level, are distinct, not empty and free of dots.
\<close>

fun good_doc :: "json \<Rightarrow> bool" where
  "good_doc (JObj kvs) =
     (distinct (map fst kvs) \<and> list_all (\<lambda>p. seg_ok (fst p) \<and> good_doc (snd p)) kvs)"
| "good_doc (JArr xs) = False"
| "good_doc v = True"

text \<open>Such a document none of whose keys is an array index.\<close>

definition plain_key :: "string \<Rightarrow> bool" where
  "plain_key k = (seg_ok k \<and> \<not> isArrayIndex k)"

fun plain_doc :: "json \<Rightarrow> bool" where
  "plain_doc (JObj kvs) =
     (distinct (map fst kvs) \<and> list_all (\<lambda>p. plain_key (fst p) \<and> plain_doc (snd p)) kvs)"
| "plain_doc (JArr xs) = False"
| "plain_doc v = True"

text \<open>
  The leaves of a document in the order in which \<open>flat_step\<close> meets them, each with its
  path of keys: the values that are not descended into.
\<close>

function leaves :: "(string \<times> json) list \<Rightarrow> (string list \<times> json) list" where
  "leaves [] = []"
| "leaves ((key, v) # rest) =
     (if isObject v \<and> entries v \<noteq> []
      then map (\<lambda>(path, u). (key # path, u)) (leaves (entries v)) @ leaves rest
      else ([key], v) # leaves rest)"
  by pat_completeness auto
termination
  by (relation "measure (\<lambda>es. size_list (\<lambda>p. size (snd p)) es)") (auto dest: size_entries)

text \<open>
  Modelled from the spec: \<open>unflatten\<close> is not among the sources, and the loader never calls
  it.  It rebuilds a nested mapping from a flattened one: every key is split at its dots and
  the value is stored at that path, in groups that are created as needed; a value that is
  not a group and stands in the way of a path is kept.
\<close>

fun unflatten_put :: "string list \<Rightarrow> json \<Rightarrow> (string \<times> json) list \<Rightarrow> (string \<times> json) list" where
  "unflatten_put [] v obj = obj"
| "unflatten_put [k] v obj = obj_set k v obj"
| "unflatten_put (k # k' # ks) v obj =
     (case map_of obj k of
        None \<Rightarrow> obj_set k (JObj (unflatten_put (k' # ks) v [])) obj
      | Some (JObj sub) \<Rightarrow> obj_set k (JObj (unflatten_put (k' # ks) v sub)) obj
      | Some other \<Rightarrow> obj)"

definition unflatten :: "(string \<times> json) list \<Rightarrow> json" where
  "unflatten target = JObj (fold (\<lambda>(key, v) result. unflatten_put (split_dot key) v result) target [])"

text \<open>Storing a list of leaves, and the group below a key.\<close>

definition sub_obj :: "(string \<times> json) list \<Rightarrow> string \<Rightarrow> (string \<times> json) list" where
  "sub_obj obj k = (case map_of obj k of Some (JObj s) \<Rightarrow> s | _ \<Rightarrow> [])"

definition putAll :: "(string list \<times> json) list \<Rightarrow> (string \<times> json) list \<Rightarrow> (string \<times> json) list" where
  "putAll ls acc = fold (\<lambda>(path, v) result. unflatten_put path v result) ls acc"











section \<open>A small workspace\<close>

text \<open>
  Three files: \<open>en.json = {"a": {"b": "hello"}, "c": "only"}\<close>,
  \<open>fr.json = {"a": {"b": ""}}\<close> and \<open>de.json = {"a": {"b": ""}}\<close>.
\<close>

definition ex_en :: ParsedFile where
  "ex_en = \<lparr>f_filepath = ''en.json'', f_locale = ''en'',
            f_value = JObj [(''a'', JObj [(''b'', JStr ''hello'')]), (''c'', JStr ''only'')],
            f_nested = True, f_flatten = [(''a.b'', JStr ''hello''), (''c'', JStr ''only'')]\<rparr>"

definition ex_fr :: ParsedFile where
  "ex_fr = \<lparr>f_filepath = ''fr.json'', f_locale = ''fr'',
            f_value = JObj [(''a'', JObj [(''b'', JStr [])])],
            f_nested = True, f_flatten = [(''a.b'', JStr [])]\<rparr>"

definition ex_de :: ParsedFile where
  "ex_de = \<lparr>f_filepath = ''de.json'', f_locale = ''de'',
            f_value = JObj [(''a'', JObj [(''b'', JStr [])])],
            f_nested = True, f_flatten = [(''a.b'', JStr [])]\<rparr>"

definition ex_loader :: LocaleLoader where
  "ex_loader =
     update \<lparr>files = [(''en.json'', ex_en), (''fr.json'', ex_fr), (''de.json'', ex_de)],
             flattenLocaleTree = [], localeTree = newTree []\<rparr>"

text \<open>A translation service that knows French and is unavailable for every other target.\<close>

definition ex_translate :: "json \<Rightarrow> string \<Rightarrow> string \<Rightarrow> string + string" where
  "ex_translate v from to = (if to = ''fr'' then Inr ''bonjour'' else Inl ''unavailable'')"

definition ex_replace :: "string \<Rightarrow> string \<Rightarrow> string" where
  "ex_replace path locale = locale @ ''.json''"

definition ex_record :: "string \<Rightarrow> LocaleRecord" where
  "ex_record l =
     \<lparr>r_keypath = ''a.b'', r_keyname = ''b'', r_value = JStr [], r_locale = l,
      r_filepath = Some (l @ ''.json''), r_shadow = False\<rparr>"

definition ex_node :: LocaleNode where
  "ex_node = the (getNodeByKey ex_loader ''a.b'')"

definition ex_platform :: "string platform" where
  "ex_platform =
     \<lparr>JSON_parse = (\<lambda>raw. if raw = ''{a:{b:1,d:1}}''
                              then Inr (JObj [(''a'', JObj [(''b'', JNum 1), (''d'', JNum 1)])])
                              else Inl ''SyntaxError''),
      JSON_stringify_2 = (\<lambda>v. ''json''),
      showInputBox = (\<lambda>locale keypath. None),
      showQuickPick = (\<lambda>paths keypath. None)\<rparr>"





definition ex_world :: World where
  "ex_world = \<lparr>loader = ex_loader, disk = [''fr.json'' \<mapsto> ''{a:{b:1,d:1}}'']\<rparr>"

definition ex_pending :: "string option \<Rightarrow> string \<Rightarrow> PendingWrite" where
  "ex_pending filepath locale =
     \<lparr>p_locale = locale, p_value = ''bonjour'', p_filepath = filepath, p_keypath = ''a.b''\<rparr>"






section \<open>Properties\<close>

subsection \<open>Objects\<close>

lemma map_of_obj_put_index:
  "map_of al k = None \<Longrightarrow> map_of (obj_put_index i k v al) = (map_of al)(k \<mapsto> v)"
  by (induction al) (auto simp: fun_eq_iff)

lemma map_of_obj_set: "map_of (obj_set k v al) = (map_of al)(k \<mapsto> v)"
  by (auto simp: obj_set_def update_conv' map_of_obj_put_index fun_eq_iff map_add_def
           split: option.splits)





subsection \<open>Translation\<close>

lemma Promise_all_map_Inr: "Promise_all (map Inr vs) = Inr vs"
  by (induction vs) simp_all

lemma Promise_all_Inr_D: "Promise_all ts = Inr vs \<Longrightarrow> ts = map Inr vs"
  by (induction ts arbitrary: vs rule: Promise_all.induct) (auto split: sum.splits)

lemma Promise_all_Inl: "Promise_all ts = Inl e \<Longrightarrow> Inl e \<in> set ts"
  by (induction ts rule: Promise_all.induct) (auto split: sum.splits)

lemma Promise_all_fails: "Inl e \<in> set ts \<Longrightarrow> \<exists>e'. Promise_all ts = Inl e'"
  by (induction ts rule: Promise_all.induct) (auto split: sum.splits)

lemma ex_loader_eval:
  "ex_loader =
     \<lparr>files = [(''en.json'', ex_en), (''fr.json'', ex_fr), (''de.json'', ex_de)],
      flattenLocaleTree =
        [(''a.b'', \<lparr>n_keypath = ''a.b'', n_keyname = ''b'',
            n_locales =
              [(''en'', \<lparr>r_keypath = ''a.b'', r_keyname = ''b'', r_value = JStr ''hello'',
                  r_locale = ''en'', r_filepath = Some ''en.json'', r_shadow = False\<rparr>),
               (''fr'', ex_record ''fr''), (''de'', ex_record ''de'')]\<rparr>),
         (''c'', \<lparr>n_keypath = ''c'', n_keyname = ''c'',
            n_locales =
              [(''en'', \<lparr>r_keypath = ''c'', r_keyname = ''c'', r_value = JStr ''only'',
                  r_locale = ''en'', r_filepath = Some ''en.json'', r_shadow = False\<rparr>)]\<rparr>)],
      localeTree =
        LocaleTree [] []
          [(''a'', TTree (LocaleTree ''a'' ''a''
              [(''b'', TNode \<lparr>n_keypath = ''a.b'', n_keyname = ''b'',
                  n_locales =
                    [(''en'', \<lparr>r_keypath = ''a.b'', r_keyname = ''b'', r_value = JStr ''hello'',
                        r_locale = ''en'', r_filepath = Some ''en.json'', r_shadow = False\<rparr>),
                     (''fr'', ex_record ''fr''), (''de'', ex_record ''de'')]\<rparr>)])),
           (''c'', TNode \<lparr>n_keypath = ''c'', n_keyname = ''c'',
              n_locales =
                [(''en'', \<lparr>r_keypath = ''c'', r_keyname = ''c'', r_value = JStr ''only'',
                    r_locale = ''en'', r_filepath = Some ''en.json'', r_shadow = False\<rparr>)]\<rparr>)]\<rparr>"
  by code_simp

lemma MachineTranslateRecord_Inr:
  "MachineTranslateRecord tr st record src = Inr x \<Longrightarrow> x \<noteq> None"
  by (auto simp: MachineTranslateRecord_def split: if_splits option.splits sum.splits)

lemma tasks_Inr:
  "Inr x \<in> set (MachineTranslateNode_tasks tr gsl repl st node src) \<Longrightarrow> x \<noteq> None"
  by (auto simp: MachineTranslateNode_tasks_def dest: MachineTranslateRecord_Inr [OF sym])

lemma all_Inr_map: "\<forall>t \<in> set ts. \<not> isl t \<Longrightarrow> ts = map Inr (map projr ts)"
  by (induction ts) auto


lemma ex_tasks:
  "MachineTranslateNode_tasks ex_translate ''en'' ex_replace ex_loader ex_node ''en'' =
     [Inr (Some \<lparr>p_locale = ''fr'', p_value = ''bonjour'', p_filepath = Some ''fr.json'',
                  p_keypath = ''a.b''\<rparr>),
      Inl (AllyError translating_unknown_error (Some ''unavailable''))]"
  by code_simp

lemma ex_tasks_ok:
  "MachineTranslateNode_tasks (\<lambda>v from to. Inr ''ok'' :: string + string) ''en'' ex_replace
     ex_loader ex_node ''en'' =
     [Inr (Some \<lparr>p_locale = ''fr'', p_value = ''ok'', p_filepath = Some ''fr.json'',
                  p_keypath = ''a.b''\<rparr>),
      Inr (Some \<lparr>p_locale = ''de'', p_value = ''ok'', p_filepath = Some ''de.json'',
                  p_keypath = ''a.b''\<rparr>)]"
  by code_simp



text \<open>
  C1, as the code has it.  \<open>MachineTranslateNode\<close> starts one \<open>MachineTranslateRecord\<close> for
  every record, stored or shadow, of a locale other than the source language, and joins them
  with \<open>Promise.all\<close>.  When every translation succeeds it returns all their pending writes,
  in the order of the tasks.  When a translation fails the whole operation fails with the
  error of a failed translation, and no pending write is returned.
\<close>

theorem MachineTranslateNode_all_or_nothing:
  "((\<forall>t \<in> set (MachineTranslateNode_tasks tr gsl repl st node src). \<not> isl t) \<longrightarrow>
      MachineTranslateNode tr gsl repl st node src =
        Inr (map (\<lambda>t. the (projr t)) (MachineTranslateNode_tasks tr gsl repl st node src)))
   \<and> ((\<exists>t \<in> set (MachineTranslateNode_tasks tr gsl repl st node src). isl t) \<longrightarrow>
      (\<exists>e. Inl e \<in> set (MachineTranslateNode_tasks tr gsl repl st node src)
         \<and> MachineTranslateNode tr gsl repl st node src = Inl e))"
proof (intro conjI impI)
  let ?ts = "MachineTranslateNode_tasks tr gsl repl st node src"
  assume ok: "\<forall>t \<in> set ?ts. \<not> isl t"
  have "?ts = map Inr (map projr ?ts)"
    using ok by (rule all_Inr_map)
  then have "Promise_all ?ts = Promise_all (map Inr (map projr ?ts))"
    by (rule arg_cong)
  then have pa: "Promise_all ?ts = Inr (map projr ?ts)"
    by (simp only: Promise_all_map_Inr)
  have ne: "\<forall>t \<in> set ?ts. projr t \<noteq> None"
  proof
    fix t assume t: "t \<in> set ?ts"
    with ok have "t = Inr (projr t)" by (cases t) auto
    with t tasks_Inr [of "projr t" tr gsl repl st node src] show "projr t \<noteq> None" by simp
  qed
  have "filter notEmpty (map projr ?ts) = map projr ?ts"
    using ne by (auto simp: notEmpty_def filter_id_conv)
  with pa show "MachineTranslateNode tr gsl repl st node src = Inr (map (\<lambda>t. the (projr t)) ?ts)"
    by (simp add: MachineTranslateNode_def comp_def)
next
  let ?ts = "MachineTranslateNode_tasks tr gsl repl st node src"
  assume "\<exists>t \<in> set ?ts. isl t"
  then obtain e0 where "Inl e0 \<in> set ?ts" by (metis sum.collapse(1))
  then have "\<exists>e. Promise_all ?ts = Inl e" by (rule Promise_all_fails)
  then obtain e where e: "Promise_all ?ts = Inl e" ..
  then have "Inl e \<in> set ?ts" by (rule Promise_all_Inl)
  with e show "\<exists>e. Inl e \<in> set ?ts \<and> MachineTranslateNode tr gsl repl st node src = Inl e"
    by (auto simp: MachineTranslateNode_def)
qed

theorem MachineTranslateNode_all_or_nothing_witness:
  "MachineTranslateNode (\<lambda>v from to. Inr ''ok'' :: string + string) ''en'' ex_replace
     ex_loader ex_node ''en'' =
     Inr [\<lparr>p_locale = ''fr'', p_value = ''ok'', p_filepath = Some ''fr.json'', p_keypath = ''a.b''\<rparr>,
          \<lparr>p_locale = ''de'', p_value = ''ok'', p_filepath = Some ''de.json'', p_keypath = ''a.b''\<rparr>]
   \<and> MachineTranslateNode ex_translate ''en'' ex_replace ex_loader ex_node ''en'' =
     Inl (AllyError translating_unknown_error (Some ''unavailable''))"
  using MachineTranslateNode_all_or_nothing
          [of "\<lambda>v from to. Inr ''ok'' :: string + string" "''en''" ex_replace ex_loader ex_node "''en''"]
        MachineTranslateNode_all_or_nothing
          [of ex_translate "''en''" ex_replace ex_loader ex_node "''en''"]
  by (simp add: ex_tasks ex_tasks_ok)

text \<open>
  The translation into French succeeds on its own, the one into German fails, and the
  translation of the whole entry returns the failure and not the French pending write.
\<close>

theorem MachineTranslateNode_partial_counterexample:
  "MachineTranslateRecord ex_translate ex_loader (ex_record ''fr'') ''en'' =
     Inr (Some \<lparr>p_locale = ''fr'', p_value = ''bonjour'', p_filepath = Some ''fr.json'',
                p_keypath = ''a.b''\<rparr>)
   \<and> MachineTranslateNode ex_translate ''en'' ex_replace ex_loader ex_node ''en'' =
     Inl (AllyError translating_unknown_error (Some ''unavailable''))"
  by code_simp

subsection \<open>Coverage\<close>










subsection \<open>Writes leave the loader alone\<close>

lemma writeToSingleFile_loader: "loader (snd (writeToSingleFile pf w pending)) = loader w"
  by (simp add: writeToSingleFile_def Let_def split: option.splits sum.splits)

lemma writeToSingleFile_failed:
  "fst (writeToSingleFile pf w pending) \<noteq> None \<Longrightarrow> snd (writeToSingleFile pf w pending) = w"
  by (auto simp: writeToSingleFile_def Let_def split: option.splits sum.splits if_splits)

lemma writeToSingleFile_disk:
  "target_filepath pf w pending \<noteq> Some fp \<Longrightarrow>
   disk (snd (writeToSingleFile pf w pending)) fp = disk w fp"
  by (cases "target_filepath pf w pending")
     (auto simp: writeToSingleFile_def Let_def falsy_path_def split: option.splits sum.splits)

lemma target_filepath_loader:
  "loader w' = loader w \<Longrightarrow> target_filepath pf w' pending = target_filepath pf w pending"
  by (simp add: target_filepath_def)

lemma writeToFile_loop_loader: "loader (snd (writeToFile_loop pf w ps)) = loader w"
proof (induction ps arbitrary: w)
  case Nil
  show ?case by simp
next
  case (Cons p ps)
  show ?case
  proof (cases "writeToSingleFile pf w p")
    case (Pair r w')
    then have "loader w' = loader w"
      using writeToSingleFile_loader [of pf w p] by simp
    with Pair Cons show ?thesis by (cases r) simp_all
  qed
qed

lemma writeToFile_loop_disk:
  "\<forall>p \<in> set ps. target_filepath pf w p \<noteq> Some fp \<Longrightarrow>
   disk (snd (writeToFile_loop pf w ps)) fp = disk w fp"
proof (induction ps arbitrary: w)
  case Nil
  show ?case by simp
next
  case (Cons p ps)
  show ?case
  proof (cases "writeToSingleFile pf w p")
    case (Pair r w')
    then have l: "loader w' = loader w"
      using writeToSingleFile_loader [of pf w p] by simp
    have d: "disk w' fp = disk w fp"
      using writeToSingleFile_disk [of pf w p fp] Pair Cons.prems by simp
    have "\<forall>q \<in> set ps. target_filepath pf w' q \<noteq> Some fp"
      using Cons.prems target_filepath_loader [OF l, of pf] by simp
    then have "disk (snd (writeToFile_loop pf w' ps)) fp = disk w' fp"
      by (rule Cons.IH)
    with Pair d show ?thesis by (cases r) simp_all
  qed
qed

text \<open>
  C10.  Neither \<open>writeToSingleFile\<close> nor \<open>writeToFile\<close> changes the loader (the file
  store, the namespace tree, the flatten index), whether the write succeeds or fails.  A
  failed single write changes nothing at all, and a write changes the disk at most at the
  target file of a pending write.
\<close>

theorem write_keeps_memory:
  "loader (snd (writeToSingleFile pf w pending)) = loader w
   \<and> loader (snd (writeToFile pf w pendings)) = loader w
   \<and> (fst (writeToSingleFile pf w pending) \<noteq> None \<longrightarrow> snd (writeToSingleFile pf w pending) = w)
   \<and> (\<forall>fp. target_filepath pf w pending \<noteq> Some fp \<longrightarrow>
         disk (snd (writeToSingleFile pf w pending)) fp = disk w fp)
   \<and> (\<forall>fp. (\<forall>p \<in> set (pending_list pendings). target_filepath pf w p \<noteq> Some fp) \<longrightarrow>
         disk (snd (writeToFile pf w pendings)) fp = disk w fp)"
  using writeToSingleFile_loader [of pf w pending] writeToSingleFile_failed [of pf w pending]
        writeToSingleFile_disk [of pf w pending]
        writeToFile_loop_loader [of pf w "pending_list pendings"]
        writeToFile_loop_disk [of "pending_list pendings" pf w]
  by (simp add: writeToFile_def pending_list_def Let_def)

lemma ex_write_ok:
  "writeToSingleFile ex_platform ex_world (ex_pending (Some ''fr.json'') ''fr'') =
     (None, ex_world\<lparr>disk := (disk ex_world)(''fr.json'' \<mapsto> ''json'' @ [CHR 0x0A])\<rparr>)"
  by (simp add: writeToSingleFile_def target_filepath_def falsy_path_def ex_pending_def
        ex_platform_def ex_world_def Let_def read_original_def)

lemma ex_write_unresolved:
  "writeToSingleFile ex_platform ex_world (ex_pending None ''it'') =
     (Some (AllyError filepath_not_specified None), ex_world)"
  by (simp add: writeToSingleFile_def target_filepath_def falsy_path_def ex_pending_def
        ex_platform_def ex_world_def Let_def requestMissingFilepath_def getFilepathsOfLocale_def
        ex_loader_eval ex_en_def ex_fr_def ex_de_def)

theorem write_keeps_memory_witness:
  "loader (snd (writeToSingleFile ex_platform ex_world (ex_pending (Some ''fr.json'') ''fr''))) = ex_loader
   \<and> writeToSingleFile ex_platform ex_world (ex_pending None ''it'') =
       (Some (AllyError filepath_not_specified None), ex_world)
   \<and> disk (snd (writeToSingleFile ex_platform ex_world (ex_pending (Some ''fr.json'') ''fr''))) ''en.json''
       = None
   \<and> disk (snd (writeToFile ex_platform ex_world (Inl (ex_pending (Some ''fr.json'') ''fr'')))) ''en.json''
       = None"
  using write_keeps_memory [of ex_platform ex_world "ex_pending (Some ''fr.json'') ''fr''"
          "Inl (ex_pending (Some ''fr.json'') ''fr'')"]
        write_keeps_memory [of ex_platform ex_world "ex_pending None ''it''"
          "Inl (ex_pending None ''it'')"]
        ex_write_unresolved
  by (simp add: pending_list_def target_filepath_def falsy_path_def ex_pending_def ex_world_def)


subsection \<open>The closest node\<close>

lemma split_dot_nodot: "CHR ''.'' \<notin> set k \<Longrightarrow> split_dot k = [k]"
  by (induction k) auto

lemma split_dot_append:
  "CHR ''.'' \<notin> set k \<Longrightarrow> split_dot (k @ CHR ''.'' # s) = k # split_dot s"
  by (induction k) auto

lemma split_join_dot: "list_all seg_ok (k # ks) \<Longrightarrow> split_dot (join_dot (k # ks)) = k # ks"
proof (induction ks arbitrary: k)
  case Nil
  then show ?case by (simp add: seg_ok_def split_dot_nodot)
next
  case (Cons k' ks)
  then have "split_dot (join_dot (k' # ks)) = k' # ks" by simp
  with Cons.prems show ?case by (simp add: seg_ok_def split_dot_append)
qed

lemma join_dot_empty: "list_all seg_ok ks \<Longrightarrow> (join_dot ks = []) = (ks = [])"
  by (cases ks) (auto simp: join_dot_Cons seg_ok_def)









subsection \<open>Shadow records\<close>
















subsection \<open>Writing one key\<close>



















subsection \<open>Flattening and its inverse\<close>

lemma obj_set_fresh:
  "map_of al k = None \<Longrightarrow> \<not> isArrayIndex k \<Longrightarrow> obj_set k v al = al @ [(k, v)]"
  by (simp add: obj_set_def)

lemma obj_set_twice: "obj_set k v (obj_set k u al) = obj_set k v al"
proof -
  have "map_of (obj_set k u al) k \<noteq> None" by (simp add: map_of_obj_set)
  then have 1: "obj_set k v (obj_set k u al) = AList.update k v (obj_set k u al)"
    by (simp add: obj_set_def)
  show ?thesis
  proof (cases "map_of al k")
    case (Some x)
    then show ?thesis using 1 by (simp add: obj_set_def)
  next
    case None
    have a: "AList.update k v (al @ [(k, u)]) = al @ [(k, v)]"
      using None by (induction al) (auto split: if_splits)
    have b: "AList.update k v (obj_put_index i k u al) = obj_put_index i k v al" for i
      using None by (induction al) (auto split: if_splits)
    from None 1 a b show ?thesis by (simp add: obj_set_def)
  qed
qed

lemma putAll_Cons: "putAll ((path, v) # ls) acc = putAll ls (unflatten_put path v acc)"
  by (simp add: putAll_def)

lemma putAll_append: "putAll (xs @ ys) acc = putAll ys (putAll xs acc)"
  by (simp add: putAll_def)

text \<open>Putting paths that start with the same key k, when k is free or holds an object.\<close>

lemma putAll_under:
  "\<forall>(path, v) \<in> set ls. path \<noteq> [] \<Longrightarrow> ls \<noteq> [] \<Longrightarrow>
   map_of acc k = None \<or> (\<exists>s. map_of acc k = Some (JObj s)) \<Longrightarrow>
   putAll (map (\<lambda>(path, u). (k # path, u)) ls) acc = obj_set k (JObj (putAll ls (sub_obj acc k))) acc"
proof (induction ls arbitrary: acc)
  case Nil
  then show ?case by simp
next
  case (Cons pv ls)
  obtain path v where pv: "pv = (path, v)" by (cases pv)
  with Cons.prems obtain p ps where path: "path = p # ps" by (cases path) auto
  let ?acc1 = "obj_set k (JObj (unflatten_put path v (sub_obj acc k))) acc"
  have step: "unflatten_put (k # path) v acc = ?acc1"
    using Cons.prems(3) path by (auto simp: sub_obj_def)
  show ?case
  proof (cases "ls = []")
    case True
    with pv step show ?thesis by (simp add: putAll_def)
  next
    case False
    have "putAll (map (\<lambda>(path, u). (k # path, u)) ls) ?acc1 =
            obj_set k (JObj (putAll ls (sub_obj ?acc1 k))) ?acc1"
      using Cons.IH [of ?acc1] Cons.prems(1) False by (simp add: map_of_obj_set)
    moreover have "sub_obj ?acc1 k = unflatten_put path v (sub_obj acc k)"
      by (simp add: sub_obj_def map_of_obj_set)
    ultimately show ?thesis using pv step
      by (simp add: putAll_Cons obj_set_twice)
  qed
qed


lemma plain_isObject: "plain_doc v \<Longrightarrow> isObject v \<Longrightarrow> \<exists>kvs. v = JObj kvs"
  by (cases v) auto

lemma good_isObject: "good_doc v \<Longrightarrow> isObject v \<Longrightarrow> \<exists>kvs. v = JObj kvs"
  by (cases v) auto

lemma plain_good: "plain_doc v \<Longrightarrow> good_doc v"
proof (induction v)
  case (JObj kvs)
  have "list_all (\<lambda>p. seg_ok (fst p) \<and> good_doc (snd p)) kvs"
    unfolding list_all_iff
  proof
    fix p assume p: "p \<in> set kvs"
    then have "plain_key (fst p)" and pd: "plain_doc (snd p)"
      using JObj.prems by (auto simp: list_all_iff)
    moreover have "snd p \<in> Basic_BNFs.snds p" by (cases p) simp
    ultimately show "seg_ok (fst p) \<and> good_doc (snd p)"
      using JObj.IH [OF p _ pd] by (simp add: plain_key_def)
  qed
  with JObj.prems show ?case by simp
qed simp_all

lemma leaves_not_Nil: "kvs \<noteq> [] \<Longrightarrow> leaves kvs \<noteq> []"
proof (induction kvs rule: leaves.induct)
  case 1
  then show ?case by simp
next
  case (2 key v rest)
  then show ?case by auto
qed

lemma leaves_paths:
  "(path, u) \<in> set (leaves kvs) \<Longrightarrow> list_all (\<lambda>p. seg_ok (fst p) \<and> good_doc (snd p)) kvs \<Longrightarrow>
   path \<noteq> [] \<and> hd path \<in> fst ` set kvs \<and> list_all seg_ok path"
proof (induction kvs arbitrary: path u rule: leaves.induct)
  case 1
  then show ?case by simp
next
  case (2 key v rest)
  show ?case
  proof (cases "isObject v \<and> entries v \<noteq> []")
    case True
    then obtain kvs' where v: "v = JObj kvs'"
      using good_isObject [of v] "2.prems"(2) by auto
    from "2.prems"(2) v have pk: "list_all (\<lambda>p. seg_ok (fst p) \<and> good_doc (snd p)) kvs'"
      by (simp add: list_all_iff)
    have sk: "seg_ok key" using "2.prems"(2) by simp
    from "2.prems"(1) True consider
        (a) path' where "path = key # path'" "(path', u) \<in> set (leaves (entries v))"
      | (b) "(path, u) \<in> set (leaves rest)"
      by auto
    then show ?thesis
    proof cases
      case a
      with "2.IH"(1) [OF True a(2)] pk v sk show ?thesis by simp
    next
      case b
      with "2.IH"(2) [OF True b] "2.prems"(2) show ?thesis by simp
    qed
  next
    case False
    from "2.prems"(1) False consider (a) "path = [key]" | (b) "(path, u) \<in> set (leaves rest)"
      by auto
    then show ?thesis
    proof cases
      case a
      with "2.prems"(2) show ?thesis by simp
    next
      case b
      with "2.IH"(3) [OF False b] "2.prems"(2) show ?thesis by simp
    qed
  qed
qed

lemma putAll_leaves:
  "plain_doc (JObj kvs) \<Longrightarrow> \<forall>k \<in> fst ` set kvs. map_of acc k = None \<Longrightarrow>
   putAll (leaves kvs) acc = acc @ kvs"
proof (induction kvs arbitrary: acc rule: leaves.induct)
  case 1
  then show ?case by (simp add: putAll_def)
next
  case (2 key v rest)
  have key: "plain_key key" "plain_doc v" and rest: "plain_doc (JObj rest)"
    and notin: "key \<notin> fst ` set rest"
    using "2.prems"(1) by (auto simp: list_all_iff)
  have free: "map_of acc key = None" using "2.prems"(2) by simp
  have ni: "\<not> isArrayIndex key" using key(1) by (simp add: plain_key_def)
  have fresh': "\<forall>k \<in> fst ` set rest. map_of (acc @ [(key, v)]) k = None"
    using "2.prems"(2) notin by (auto simp: map_add_def split: option.splits)
  show ?case
  proof (cases "isObject v \<and> entries v \<noteq> []")
    case True
    then obtain kvs' where v: "v = JObj kvs'" using plain_isObject [OF key(2)] by auto
    with True have ne: "kvs' \<noteq> []" by simp
    have pk: "list_all (\<lambda>p. seg_ok (fst p) \<and> good_doc (snd p)) kvs'"
      using plain_good [OF key(2)] v by simp
    have nonempty: "\<forall>(path, u) \<in> set (leaves kvs'). path \<noteq> []"
      using leaves_paths [OF _ pk] by auto
    have inner: "putAll (leaves kvs') [] = kvs'"
      using "2.IH"(1) [OF True, of "[]"] key(2) v by simp
    have "putAll (map (\<lambda>(path, u). (key # path, u)) (leaves kvs')) acc =
            obj_set key (JObj (putAll (leaves kvs') (sub_obj acc key))) acc"
      by (rule putAll_under [OF nonempty leaves_not_Nil [OF ne]]) (simp add: free)
    also have "\<dots> = acc @ [(key, v)]"
      using free inner v ni by (simp add: sub_obj_def obj_set_fresh)
    finally have 1: "putAll (map (\<lambda>(path, u). (key # path, u)) (leaves kvs')) acc = acc @ [(key, v)]" .
    have "putAll (leaves rest) (acc @ [(key, v)]) = (acc @ [(key, v)]) @ rest"
      by (rule "2.IH"(2) [OF True rest fresh'])
    with 1 True v show ?thesis by (simp add: putAll_append)
  next
    case False
    have "putAll (leaves rest) (acc @ [(key, v)]) = (acc @ [(key, v)]) @ rest"
      by (rule "2.IH"(3) [OF False rest fresh'])
    moreover from False have "leaves ((key, v) # rest) = ([key], v) # leaves rest" by simp
    moreover have "obj_set key v acc = acc @ [(key, v)]" by (rule obj_set_fresh [OF free ni])
    ultimately show ?thesis by (simp add: putAll_Cons)
  qed
qed


lemma join_dot_append:
  "xs \<noteq> [] \<Longrightarrow> ys \<noteq> [] \<Longrightarrow> join_dot (xs @ ys) = join_dot xs @ CHR ''.'' # join_dot ys"
proof (induction xs)
  case Nil
  then show ?case by simp
next
  case (Cons x xs)
  show ?case
  proof (cases "xs = []")
    case True
    with Cons.prems show ?thesis by (simp add: join_dot_Cons)
  next
    case False
    with Cons show ?thesis by (simp add: join_dot_Cons)
  qed
qed

lemma join_dot_snoc:
  "list_all seg_ok pre \<Longrightarrow>
   (if join_dot pre \<noteq> [] then join_dot pre @ CHR ''.'' # key else key) = join_dot (pre @ [key])"
  by (cases "pre = []") (simp_all add: join_dot_append join_dot_empty)

lemma split_join_dot': "list_all seg_ok segs \<Longrightarrow> segs \<noteq> [] \<Longrightarrow> split_dot (join_dot segs) = segs"
  by (cases segs) (auto simp: split_join_dot)

lemma dot_in_join: "xs \<noteq> [] \<Longrightarrow> ys \<noteq> [] \<Longrightarrow> CHR ''.'' \<in> set (join_dot (xs @ ys))"
  by (simp add: join_dot_append)


lemma not_index_dot:
  assumes "CHR ''.'' \<in> set s"
  shows "\<not> isArrayIndex s"
proof
  assume "isArrayIndex s"
  then have "canonical_uint s" by (simp add: isArrayIndex_def)
  then have "s = ''0'' \<or> list_all is_digit s" by (auto simp: canonical_uint_def)
  then show False
  proof
    assume "s = ''0''"
    with assms show False by simp
  next
    assume "list_all is_digit s"
    with assms have "is_digit CHR ''.''" by (simp add: list_all_iff)
    then show False by (simp add: is_digit_def)
  qed
qed

lemma not_index_join:
  "plain_key key \<Longrightarrow> \<not> isArrayIndex (join_dot (pre @ [key]))"
proof (cases "pre = []")
  case True
  assume "plain_key key"
  with True show ?thesis by (simp add: plain_key_def)
next
  case False
  then have "CHR ''.'' \<in> set (join_dot (pre @ [key]))" by (simp add: dot_in_join)
  then show ?thesis by (rule not_index_dot)
qed

lemma prefix_snoc_same: "prefix (pre @ [k]) (pre @ key # path) \<Longrightarrow> k = key"
  by simp

lemma flat_step_leaves:
  "plain_doc (JObj kvs) \<Longrightarrow> list_all seg_ok pre \<Longrightarrow>
   \<forall>key \<in> fst ` set out. \<forall>k \<in> fst ` set kvs. \<not> prefix (pre @ [k]) (split_dot key) \<Longrightarrow>
   flat_step kvs (join_dot pre) out =
     out @ map (\<lambda>(path, v). (join_dot (pre @ path), v)) (leaves kvs)"
proof (induction kvs arbitrary: pre out rule: leaves.induct)
  case 1
  then show ?case by simp
next
  case (2 key v rest)
  have key: "plain_key key" "plain_doc v" and rest: "plain_doc (JObj rest)"
    and notin: "key \<notin> fst ` set rest"
    using "2.prems"(1) by (auto simp: list_all_iff)
  have sk: "seg_ok key" using key(1) by (simp add: plain_key_def)
  let ?newKey = "join_dot (pre @ [key])"
  have good: "list_all seg_ok (pre @ [key])" using "2.prems"(2) sk by simp
  have sp: "split_dot ?newKey = pre @ [key]" by (rule split_join_dot' [OF good]) simp
  have free: "map_of out ?newKey = None"
  proof (rule ccontr)
    assume "map_of out ?newKey \<noteq> None"
    then have "?newKey \<in> fst ` set out" by (simp add: map_of_eq_None_iff)
    with "2.prems"(3) have "\<not> prefix (pre @ [key]) (split_dot ?newKey)" by auto
    with sp show False by simp
  qed
  have ni: "\<not> isArrayIndex ?newKey" by (rule not_index_join [OF key(1)])
  have old: "\<forall>key' \<in> fst ` set out. \<forall>k \<in> fst ` set rest. \<not> prefix (pre @ [k]) (split_dot key')"
    using "2.prems"(3) by auto
  show ?case
  proof (cases "isObject v \<and> entries v \<noteq> []")
    case True
    then obtain kvs' where v: "v = JObj kvs'" using plain_isObject [OF key(2)] by auto
    have pk: "list_all (\<lambda>p. seg_ok (fst p) \<and> good_doc (snd p)) kvs'"
      using plain_good [OF key(2)] v by simp
    have f1: "\<forall>key' \<in> fst ` set out. \<forall>k \<in> fst ` set kvs'.
                \<not> prefix ((pre @ [key]) @ [k]) (split_dot key')"
    proof (intro ballI notI)
      fix key' k assume k': "key' \<in> fst ` set out" and "prefix ((pre @ [key]) @ [k]) (split_dot key')"
      then have "prefix (pre @ [key]) (split_dot key')" by (metis append_prefixD)
      with "2.prems"(3) k' show False by auto
    qed
    let ?inner = "map (\<lambda>(path, u). (join_dot ((pre @ [key]) @ path), u)) (leaves kvs')"
    have i1: "flat_step kvs' ?newKey out = out @ ?inner"
      using "2.IH"(1) [OF True, of "pre @ [key]" out] key(2) v good f1 by simp
    have f2: "\<forall>key' \<in> fst ` set (out @ ?inner). \<forall>k \<in> fst ` set rest.
                \<not> prefix (pre @ [k]) (split_dot key')"
    proof (intro ballI notI)
      fix key' k
      assume k': "key' \<in> fst ` set (out @ ?inner)" and k: "k \<in> fst ` set rest"
        and pre: "prefix (pre @ [k]) (split_dot key')"
      show False
      proof (cases "key' \<in> fst ` set out")
        case True
        with old k pre show False by auto
      next
        case False
        with k' obtain path u where pu: "(path, u) \<in> set (leaves kvs')"
          and key': "key' = join_dot ((pre @ [key]) @ path)" by auto
        have "list_all seg_ok path" using leaves_paths [OF pu pk] by simp
        with good have "split_dot key' = pre @ key # path"
          unfolding key' using split_join_dot' [of "(pre @ [key]) @ path"] by simp
        with pre have "k = key" by simp
        with k notin show False by simp
      qed
    qed
    have i2: "flat_step rest (join_dot pre) (out @ ?inner) =
              (out @ ?inner) @ map (\<lambda>(path, v). (join_dot (pre @ path), v)) (leaves rest)"
      by (rule "2.IH"(2) [OF True rest "2.prems"(2) f2])
    have "flat_step ((key, v) # rest) (join_dot pre) out =
            flat_step rest (join_dot pre)
              (flat_step (entries v)
                 (if join_dot pre \<noteq> [] then join_dot pre @ CHR ''.'' # key else key) out)"
      by (simp only: flat_step.simps Let_def if_P [OF True])
    then have "flat_step ((key, v) # rest) (join_dot pre) out =
            flat_step rest (join_dot pre) (flat_step kvs' ?newKey out)"
      using v by (simp only: join_dot_snoc [OF "2.prems"(2)] entries.simps)
    with i1 i2 True v show ?thesis
      by (simp add: comp_def case_prod_unfold)
  next
    case False
    have f3: "\<forall>key' \<in> fst ` set (out @ [(?newKey, v)]). \<forall>k \<in> fst ` set rest.
                \<not> prefix (pre @ [k]) (split_dot key')"
    proof (intro ballI notI)
      fix key' k
      assume k': "key' \<in> fst ` set (out @ [(?newKey, v)])" and k: "k \<in> fst ` set rest"
        and pre: "prefix (pre @ [k]) (split_dot key')"
      show False
      proof (cases "key' \<in> fst ` set out")
        case True
        with old k pre show False by auto
      next
        case False
        with k' have "key' = ?newKey" by auto
        with pre sp have "k = key" by simp
        with k notin show False by simp
      qed
    qed
    have i3: "flat_step rest (join_dot pre) (out @ [(?newKey, v)]) =
              (out @ [(?newKey, v)]) @ map (\<lambda>(path, v). (join_dot (pre @ path), v)) (leaves rest)"
      by (rule "2.IH"(3) [OF False rest "2.prems"(2) f3])
    have "flat_step ((key, v) # rest) (join_dot pre) out =
            flat_step rest (join_dot pre)
              (obj_set (if join_dot pre \<noteq> [] then join_dot pre @ CHR ''.'' # key else key) v out)"
      by (simp only: flat_step.simps Let_def if_not_P [OF False])
    then have "flat_step ((key, v) # rest) (join_dot pre) out =
            flat_step rest (join_dot pre) (obj_set ?newKey v out)"
      by (simp only: join_dot_snoc [OF "2.prems"(2)])
    moreover have "obj_set ?newKey v out = out @ [(?newKey, v)]"
      by (rule obj_set_fresh [OF free ni])
    moreover from False have "leaves ((key, v) # rest) = ([key], v) # leaves rest" by simp
    ultimately show ?thesis using i3 by simp
  qed
qed

lemma fold_split_join:
  "\<forall>(path, v) \<in> set ls. list_all seg_ok path \<and> path \<noteq> [] \<Longrightarrow>
   fold (\<lambda>(key, v) result. unflatten_put (split_dot key) v result)
        (map (\<lambda>(path, v). (join_dot path, v)) ls) acc = putAll ls acc"
proof (induction ls arbitrary: acc)
  case Nil
  then show ?case by (simp add: putAll_def)
next
  case (Cons pv ls)
  obtain path v where pv: "pv = (path, v)" by (cases pv)
  with Cons.prems have "split_dot (join_dot path) = path" by (simp add: split_join_dot')
  with Cons pv show ?case by (simp add: putAll_Cons)
qed

text \<open>
  C8, for the documents it holds for.  For every nested document whose keys are distinct,
  not empty, free of dots and not array indices, unflattening the flattened form gives the
  document back.
\<close>

theorem unflatten_flat:
  assumes "plain_doc (JObj kvs)"
  shows "map_option unflatten (flat (JObj kvs)) = Some (JObj kvs)"
proof -
  have pk: "list_all (\<lambda>p. seg_ok (fst p) \<and> good_doc (snd p)) kvs"
    using plain_good [OF assms] by simp
  have "flat_step kvs (join_dot []) [] = [] @ map (\<lambda>(path, v). (join_dot ([] @ path), v)) (leaves kvs)"
    by (rule flat_step_leaves [OF assms]) simp_all
  then have fl: "flat (JObj kvs) = Some (map (\<lambda>(path, v). (join_dot path, v)) (leaves kvs))"
    by (simp add: flat_def)
  have "\<forall>(path, v) \<in> set (leaves kvs). list_all seg_ok path \<and> path \<noteq> []"
    using leaves_paths [OF _ pk] by auto
  then have "unflatten (map (\<lambda>(path, v). (join_dot path, v)) (leaves kvs)) = JObj (putAll (leaves kvs) [])"
    unfolding unflatten_def by (simp only: fold_split_join)
  also have "\<dots> = JObj kvs" using putAll_leaves [OF assms, of "[]"] by simp
  finally show ?thesis using fl by simp
qed

theorem unflatten_flat_witness:
  "map_option unflatten (flat (JObj [(''a'', JObj [(''b'', JStr ''hello''), (''e'', JObj [])]), (''c'', JStr ''only'')]))
     = Some (JObj [(''a'', JObj [(''b'', JStr ''hello''), (''e'', JObj [])]), (''c'', JStr ''only'')])"
  using unflatten_flat [of "[(''a'', JObj [(''b'', JStr ''hello''), (''e'', JObj [])]), (''c'', JStr ''only'')]"]
  by (simp add: plain_key_def seg_ok_def isArrayIndex_def canonical_uint_def is_digit_def)

text \<open>
  The documents \<open>{"a.b": "x"}\<close> and \<open>{"a": {"b": "x"}}\<close> are different and have the same
  flattened form, so no inverse can give both back; unflattening it gives the second.
\<close>

theorem flat_dotted_key_counterexample:
  "flat (JObj [(''a.b'', JStr ''x'')]) = flat (JObj [(''a'', JObj [(''b'', JStr ''x'')])])
   \<and> JObj [(''a.b'', JStr ''x'')] \<noteq> JObj [(''a'', JObj [(''b'', JStr ''x'')])]
   \<and> map_option unflatten (flat (JObj [(''a.b'', JStr ''x'')])) = Some (JObj [(''a'', JObj [(''b'', JStr ''x'')])])"
  by code_simp

subsection \<open>The tree and the flatten index after a rebuild\<close>






































end
